theory Spec2Isabelle
  imports Main
begin

section \<open>Requests, principals and outcomes\<close>

text \<open>
  JavaScript strings are modelled as \<^typ>\<open>string\<close>: a list of characters, each one
  code unit. A request carries the method, the path below the router's mount point (as its
  list of non-empty segments), the principal that authentication attached (\<open>req.user\<close>,
  absent when there is none), the parsed query string and the parsed body.
\<close>

datatype http_method = GET | HEAD | POST | PUT | PATCH | DELETE | OPTIONS

text \<open>
  A parsed query parameter is a string, an array (a repeated parameter) or a nested object;
  only a string can be strictly equal to a string literal.
\<close>

datatype qvalue = QString string | QArray "qvalue list" | QObject "(string \<times> qvalue) list"

record principal =
  ident :: string
  role :: string

type_synonym fields = "string \<Rightarrow> string option"

record request =
  req_method :: http_method
  path :: "string list"
  user :: "principal option"
  query :: "string \<Rightarrow> qvalue option"
  body :: fields

datatype error = Unauthenticated | Forbidden | TypeError

datatype handler =
  getDashboardStats | getHealthTrends | getUsers | getUserById | updateUser | deleteUser

text \<open>A middleware either calls \<open>next()\<close> (\<open>None\<close>) or halts the pipeline with an error.\<close>

type_synonym middleware = "request \<Rightarrow> error option"

datatype outcome = Halted error | Invoked handler | Unmatched

section \<open>The access gate: \<open>server/routes/userRoutes.js\<close>\<close>

definition protect :: middleware where
  \<comment> \<open>Modelled from the spec: \<open>protect\<close> of \<open>middlewares/auth.js\<close>, which is not among the
      sources. Section 4.1: if no principal is present, fail with an Unauthenticated error,
      halting the pipeline; otherwise continue.\<close>
  "protect req = (case user req of None \<Rightarrow> Some Unauthenticated | Some p \<Rightarrow> None)"

definition authorize :: "string list \<Rightarrow> middleware" where
  \<comment> \<open>Modelled from the spec: \<open>authorize(...roles)\<close> of \<open>middlewares/auth.js\<close>, which is not
      among the sources. Section 4.1: the principal's role must be a member of the route's
      permitted-role set; on failure of the allow-list check, fail with a Forbidden error.\<close>
  "authorize roles req =
     (case user req of
        None \<Rightarrow> Some Forbidden
      | Some p \<Rightarrow> if role p \<in> set roles then None else Some Forbidden)"

definition authorizeUsersList :: middleware where
  \<comment> \<open>Reading \<open>req.user.role\<close> of an absent \<open>req.user\<close> throws a \<open>TypeError\<close>.\<close>
  "authorizeUsersList req =
     (case user req of
        None \<Rightarrow> Some TypeError
      | Some p \<Rightarrow>
          if role p = ''patient'' \<and> query req ''role'' = Some (QString ''doctor'')
          then None
          else authorize [''admin'', ''doctor''] req)"

text \<open>
  The router is the list of its layers in registration order. A route pattern is a list of
  segments: a literal (\<open>/stats\<close>) or a parameter (\<open>/:id\<close>). Express matches literals without
  regard to case, and a route registered with \<open>router.get\<close> also serves \<open>HEAD\<close>.
\<close>

datatype segment = Lit string | Param

datatype layer = Use middleware | Route http_method "segment list" "middleware list" handler

definition lower :: "char \<Rightarrow> char" where
  "lower c = (if 65 \<le> (of_char c :: nat) \<and> (of_char c :: nat) \<le> 90
              then char_of (of_char c + (32 :: nat)) else c)"

fun match_segment :: "segment \<Rightarrow> string \<Rightarrow> bool" where
  "match_segment (Lit l) s = (map lower s = map lower l)"
| "match_segment Param s = (s \<noteq> [])"

definition match_path :: "segment list \<Rightarrow> string list \<Rightarrow> bool" where
  "match_path pat p = list_all2 match_segment pat p"

definition handles_method :: "http_method \<Rightarrow> http_method \<Rightarrow> bool" where
  "handles_method registered m = (m = registered \<or> (m = HEAD \<and> registered = GET))"

fun run_gates :: "middleware list \<Rightarrow> request \<Rightarrow> error option" where
  "run_gates [] req = None"
| "run_gates (g # gs) req = (case g req of Some e \<Rightarrow> Some e | None \<Rightarrow> run_gates gs req)"

fun handle :: "layer list \<Rightarrow> request \<Rightarrow> outcome" where
  "handle [] req = Unmatched"
| "handle (Use m # ls) req = (case m req of Some e \<Rightarrow> Halted e | None \<Rightarrow> handle ls req)"
| "handle (Route m pat gates h # ls) req =
     (if handles_method m (req_method req) \<and> match_path pat (path req)
      then (case run_gates gates req of Some e \<Rightarrow> Halted e | None \<Rightarrow> Invoked h)
      else handle ls req)"

definition router :: "layer list" where
  "router =
     [Use protect,
      Route GET [Lit ''stats''] [] getDashboardStats,
      Route GET [Lit ''trends''] [] getHealthTrends,
      Route GET [] [authorizeUsersList] getUsers,
      Route GET [Param] [authorize [''admin'', ''doctor'']] getUserById,
      Route PUT [Param] [authorize [''admin'']] updateUser,
      Route DELETE [Param] [authorize [''admin'']] deleteUser]"

section \<open>Strings and regular expressions of the validation library\<close>

text \<open>
  The rule sets of \<open>validator.js\<close> are chains of express-validator, whose standard
  validators and sanitizers are those of the validator.js library with its default options.
  This section models the pieces the rule sets use. Characters are single code units below
  256, so the classes below are the library's classes restricted to that range.
\<close>

definition is_space :: "char \<Rightarrow> bool" where
  \<comment> \<open>\<open>\s\<close>, and the characters \<open>String.prototype.trim\<close> removes: tab, line feed, vertical tab,
      form feed, carriage return, space, no-break space.\<close>
  "is_space c = ((of_char c :: nat) \<in> {9, 10, 11, 12, 13, 32, 160})"

definition is_line_terminator :: "char \<Rightarrow> bool" where
  "is_line_terminator c = ((of_char c :: nat) \<in> {10, 13})"

definition is_digit :: "char \<Rightarrow> bool" where
  "is_digit c = (48 \<le> (of_char c :: nat) \<and> (of_char c :: nat) \<le> 57)"

definition is_lower :: "char \<Rightarrow> bool" where
  "is_lower c = (97 \<le> (of_char c :: nat) \<and> (of_char c :: nat) \<le> 122)"

definition is_upper :: "char \<Rightarrow> bool" where
  "is_upper c = (65 \<le> (of_char c :: nat) \<and> (of_char c :: nat) \<le> 90)"

definition is_word :: "char \<Rightarrow> bool" where
  \<comment> \<open>\<open>\w\<close>\<close>
  "is_word c = (is_lower c \<or> is_upper c \<or> is_digit c \<or> c = CHR ''_'')"

definition in_range :: "nat \<Rightarrow> nat \<Rightarrow> char \<Rightarrow> bool" where
  "in_range lo hi c = (lo \<le> (of_char c :: nat) \<and> (of_char c :: nat) \<le> hi)"

definition one_of :: "string \<Rightarrow> char \<Rightarrow> bool" where
  "one_of cs c = (c \<in> set cs)"

definition trim_str :: "string \<Rightarrow> string" where
  \<comment> \<open>\<open>trim(str)\<close> of the library and \<open>str.trim()\<close> of JavaScript\<close>
  "trim_str s = rev (dropWhile is_space (rev (dropWhile is_space s)))"

fun split_on :: "char \<Rightarrow> string \<Rightarrow> string list" where
  \<comment> \<open>\<open>str.split(sep)\<close> for a one-character separator\<close>
  "split_on sep [] = [[]]"
| "split_on sep (c # cs) =
     (if c = sep then [] # split_on sep cs
      else (case split_on sep cs of p # ps \<Rightarrow> (c # p) # ps | [] \<Rightarrow> [[c]]))"

fun join_with :: "char \<Rightarrow> string list \<Rightarrow> string" where
  \<comment> \<open>\<open>parts.join(sep)\<close>\<close>
  "join_with sep [] = []"
| "join_with sep [p] = p"
| "join_with sep (p # q # ps) = p @ sep # join_with sep (q # ps)"

definition byte_length :: "string \<Rightarrow> nat" where
  \<comment> \<open>the length in UTF-8 bytes: a code unit from 128 on takes two\<close>
  "byte_length s = sum_list (map (\<lambda>c. if (of_char c :: nat) < 128 then 1 else 2) s)"

subsection \<open>A backtracking matcher\<close>

text \<open>
  A regular expression is a function from a matching state to the list of states after every
  way of matching at that point. The state holds the captured groups, the input consumed so
  far (reversed) and the input still to read. A pattern matches when some way exists, so
  the order in which alternatives are tried does not matter.
\<close>

record mstate =
  caps :: "nat \<Rightarrow> string option"
  seen :: string
  rest :: string

type_synonym rx = "mstate \<Rightarrow> mstate list"

definition cls :: "(char \<Rightarrow> bool) \<Rightarrow> rx" where
  \<comment> \<open>one character of a class\<close>
  "cls P st =
     (case rest st of
        [] \<Rightarrow> []
      | c # r \<Rightarrow> if P c then [st\<lparr>seen := c # seen st, rest := r\<rparr>] else [])"

definition chr :: "char \<Rightarrow> rx" where
  "chr a = cls (\<lambda>c. c = a)"

definition eps :: rx where
  "eps st = [st]"

definition seq :: "rx \<Rightarrow> rx \<Rightarrow> rx" where
  "seq m n st = concat (map n (m st))"

definition seqs :: "rx list \<Rightarrow> rx" where
  "seqs ms = foldr seq ms eps"

definition alt :: "rx \<Rightarrow> rx \<Rightarrow> rx" where
  \<comment> \<open>\<open>m|n\<close>\<close>
  "alt m n st = m st @ n st"

definition alts :: "rx list \<Rightarrow> rx" where
  "alts ms st = concat (map (\<lambda>m. m st) ms)"

definition opt :: "rx \<Rightarrow> rx" where
  \<comment> \<open>\<open>m?\<close>\<close>
  "opt m = alt m eps"

fun rx_times :: "nat \<Rightarrow> rx \<Rightarrow> rx" where
  \<comment> \<open>\<open>m{k}\<close>\<close>
  "rx_times 0 m = eps"
| "rx_times (Suc k) m = seq m (rx_times k m)"

fun rx_upto :: "nat \<Rightarrow> rx \<Rightarrow> rx" where
  \<comment> \<open>\<open>m{0,k}\<close>\<close>
  "rx_upto 0 m = eps"
| "rx_upto (Suc k) m = opt (seq m (rx_upto k m))"

definition rx_between :: "nat \<Rightarrow> nat \<Rightarrow> rx \<Rightarrow> rx" where
  \<comment> \<open>\<open>m{lo,hi}\<close>\<close>
  "rx_between lo hi m = seq (rx_times lo m) (rx_upto (hi - lo) m)"

definition rx_star :: "rx \<Rightarrow> rx" where
  \<comment> \<open>\<open>m*\<close>, for an \<open>m\<close> that consumes input: no more repetitions than characters left\<close>
  "rx_star m st = rx_upto (length (rest st)) m st"

definition rx_plus :: "rx \<Rightarrow> rx" where
  \<comment> \<open>\<open>m+\<close>\<close>
  "rx_plus m = seq m (rx_star m)"

definition rx_at_least :: "nat \<Rightarrow> rx \<Rightarrow> rx" where
  \<comment> \<open>\<open>m{k,}\<close>\<close>
  "rx_at_least k m = seq (rx_times k m) (rx_star m)"

definition ahead :: "rx \<Rightarrow> rx" where
  \<comment> \<open>\<open>(?=m)\<close>\<close>
  "ahead m st = (if m st = [] then [] else [st])"

definition not_ahead :: "rx \<Rightarrow> rx" where
  \<comment> \<open>\<open>(?!m)\<close>\<close>
  "not_ahead m st = (if m st = [] then [st] else [])"

definition word_boundary :: rx where
  \<comment> \<open>\<open>\b\<close>: exactly one of the characters before and after is a word character\<close>
  "word_boundary st =
     (if (case seen st of [] \<Rightarrow> False | c # _ \<Rightarrow> is_word c)
         \<noteq> (case rest st of [] \<Rightarrow> False | c # _ \<Rightarrow> is_word c)
      then [st] else [])"

definition bol :: rx where
  \<comment> \<open>\<open>^\<close>\<close>
  "bol st = (if seen st = [] then [st] else [])"

definition eol :: rx where
  \<comment> \<open>\<open>$\<close>\<close>
  "eol st = (if rest st = [] then [st] else [])"

definition grp :: "nat \<Rightarrow> rx \<Rightarrow> rx" where
  \<comment> \<open>capturing group number \<open>n\<close>: records what \<open>m\<close> consumed\<close>
  "grp n m st =
     map (\<lambda>st'. st'\<lparr>caps := (caps st')(n \<mapsto> rev (take (length (seen st') - length (seen st)) (seen st')))\<rparr>)
       (m st)"

definition lit :: "string \<Rightarrow> rx" where
  "lit l = seqs (map chr l)"

definition backref :: "nat \<Rightarrow> rx" where
  \<comment> \<open>\<open>\n\<close>: the text of group \<open>n\<close>; a group that has not taken part matches the empty string\<close>
  "backref n st = (case caps st n of None \<Rightarrow> [st] | Some l \<Rightarrow> lit l st)"

definition rx_test :: "rx \<Rightarrow> string \<Rightarrow> bool" where
  \<comment> \<open>\<open>pattern.test(str)\<close> for a pattern anchored with \<open>^\<close>\<close>
  "rx_test m s = (m \<lparr>caps = (\<lambda>_. None), seen = [], rest = s\<rparr> \<noteq> [])"

subsection \<open>Validators of the library, with their default options\<close>

definition v_isEmpty :: "string \<Rightarrow> bool" where
  "v_isEmpty s = (length s = 0)"

definition v_isLength :: "nat option \<Rightarrow> nat option \<Rightarrow> string \<Rightarrow> bool" where
  \<comment> \<open>\<open>isLength(str, {min, max})\<close>: an absent \<open>min\<close> is 0, an absent \<open>max\<close> is no bound\<close>
  "v_isLength mn mx s =
     ((case mn of None \<Rightarrow> 0 | Some m \<Rightarrow> m) \<le> length s
      \<and> (case mx of None \<Rightarrow> True | Some m \<Rightarrow> length s \<le> m))"

definition v_isIn :: "string list \<Rightarrow> string \<Rightarrow> bool" where
  "v_isIn vs s = (s \<in> set vs)"

definition digit :: rx where
  "digit = cls is_digit"

definition dot :: rx where
  \<comment> \<open>\<open>.\<close>: any character but a line terminator\<close>
  "dot = cls (\<lambda>c. \<not> is_line_terminator c)"

definition tld_char :: "char \<Rightarrow> bool" where
  "tld_char c = (is_lower c \<or> is_upper c \<or> in_range 161 168 c \<or> in_range 170 255 c)"

definition tld_pattern :: rx where
  \<comment> \<open>two or more letters (ASCII without regard to case, or code units from 161 on except
      169), or \<open>xn\<close> and two or more of \<open>[a-z0-9-]\<close>, case ignored\<close>
  "tld_pattern =
     seqs [bol,
       grp 1 (alts [
         rx_at_least 2 (cls tld_char),
         seqs [cls (one_of ''xX''), cls (one_of ''nN''),
               rx_at_least 2 (cls (\<lambda>c. is_lower c \<or> is_upper c \<or> is_digit c \<or> c = CHR ''-''))]]),
       eol]"

definition fqdn_part_pattern :: rx where
  \<comment> \<open>one or more of: ASCII letters and digits, \<open>_\<close>, \<open>-\<close>, code units from 161 on\<close>
  "fqdn_part_pattern =
     seqs [bol,
       rx_plus (cls (\<lambda>c. is_lower c \<or> is_upper c \<or> c = CHR ''_'' \<or> in_range 161 255 c
                          \<or> is_digit c \<or> c = CHR ''-'')),
       eol]"

definition v_isFQDN :: "string \<Rightarrow> bool" where
  \<comment> \<open>\<open>isFQDN(str, {require_tld: true, allow_underscores: false, ignore_max_length: false})\<close>\<close>
  "v_isFQDN s =
     (let parts = split_on CHR ''.'' s; tld = last parts in
      if length parts < 2 then False
      else if \<not> rx_test tld_pattern tld then False
      else if list_ex is_space tld then False
      else if rx_test (seqs [bol, rx_plus digit, eol]) tld then False
      else list_all (\<lambda>part.
             if length part > 63 then False
             else if \<not> rx_test fqdn_part_pattern part then False
             else if hd part = CHR ''-'' \<or> last part = CHR ''-'' then False
             else if CHR ''_'' \<in> set part then False
             else True) parts)"

definition email_user_char :: "char \<Rightarrow> bool" where
  "email_user_char c =
     (is_lower c \<or> is_upper c \<or> is_digit c \<or> one_of ''!#$%&*+-/=?^_{|}~'' c
      \<or> c = CHR 0x27 \<or> c = CHR 0x60 \<or> in_range 161 255 c)"

definition emailUserUtf8Part :: rx where
  \<comment> \<open>one or more of: ASCII letters and digits, the punctuation of an unquoted local part,
      code units from 161 on\<close>
  "emailUserUtf8Part = seqs [bol, rx_plus (cls email_user_char), eol]"

definition quoted_char :: "char \<Rightarrow> bool" where
  "quoted_char c =
     (is_space c \<or> in_range 1 8 c \<or> in_range 11 12 c \<or> in_range 14 31 c \<or> in_range 127 127 c
      \<or> in_range 33 33 c \<or> in_range 35 91 c \<or> in_range 93 126 c \<or> in_range 160 255 c)"

definition quoted_escaped_char :: "char \<Rightarrow> bool" where
  "quoted_escaped_char c =
     (in_range 1 9 c \<or> in_range 11 12 c \<or> in_range 13 127 c \<or> in_range 160 255 c)"

definition quotedEmailUserUtf8 :: rx where
  \<comment> \<open>zero or more of: a plain character of the quoted class, or a backslash and an
      escaped character\<close>
  "quotedEmailUserUtf8 =
     seqs [bol,
       rx_star (grp 1 (alts [cls quoted_char, grp 2 (seqs [chr (CHR 0x5C), cls quoted_escaped_char])])),
       eol]"

definition v_isEmail :: "string \<Rightarrow> bool" where
  \<comment> \<open>\<open>isEmail(str)\<close>: no display name, UTF-8 local part allowed, a top-level domain required,
      at most 254 characters, no IP domain\<close>
  "v_isEmail s =
     (if length s > 254 then False
      else
        let parts = split_on CHR ''@'' s;
            domain = last parts;
            usr = join_with CHR ''@'' (butlast parts)
        in
          if byte_length usr > 64 \<or> byte_length domain > 254 then False
          else if \<not> v_isFQDN domain then False
          else if (case usr of [] \<Rightarrow> False | c # _ \<Rightarrow> c = CHR 0x22)
          then rx_test quotedEmailUserUtf8 (butlast (tl usr))
          else list_all (rx_test emailUserUtf8Part) (split_on CHR ''.'' usr))"

definition hour24 :: rx where
  \<comment> \<open>\<open>[01]\d|2[0-3]\<close>\<close>
  "hour24 = alts [seqs [cls (one_of ''01''), digit], seqs [chr CHR ''2'', cls (one_of ''0123'')]]"

definition sixty :: rx where
  \<comment> \<open>\<open>[0-5]\d\<close>\<close>
  "sixty = seqs [cls (one_of ''012345''), digit]"

definition iso8601 :: rx where
  \<comment> \<open>the library's pattern for ISO 8601 dates (not the strict-separator one):
      a year; then optionally a separator (group 3), a month \<open>01\<close> to \<open>12\<close> with an optional
      day \<open>01\<close> to \<open>31\<close>, or a week \<open>W00\<close> to \<open>W53\<close> with an optional weekday, or an ordinal
      day \<open>001\<close> to \<open>366\<close>; then optionally \<open>T\<close> or white space, a time whose colon is
      group 17, seconds, and a zone. The day is not compared with the month.\<close>
  "iso8601 =
     seqs [bol,
       grp 1 (seqs [opt (cls (one_of ''+-'')), rx_times 4 digit,
                    not_ahead (seqs [rx_times 2 digit, word_boundary])]),
       opt (grp 2 (seqs [
         grp 3 (opt (chr CHR ''-'')),
         grp 4 (alts [
           seqs [grp 5 (alts [seqs [chr CHR ''0'', cls (in_range 49 57)],
                              seqs [chr CHR ''1'', cls (one_of ''012'')]]),
                 opt (grp 6 (seqs [backref 3,
                   grp 7 (alts [seqs [cls (one_of ''12''), digit],
                                seqs [chr CHR ''0'', cls (in_range 49 57)],
                                seqs [chr CHR ''3'', cls (one_of ''01'')]])]))],
           seqs [chr CHR ''W'',
                 grp 8 (alts [seqs [cls (one_of ''01234''), digit],
                              seqs [chr CHR ''5'', cls (one_of ''0123'')]]),
                 opt (grp 9 (seqs [opt (chr CHR ''-''), cls (in_range 49 55)]))],
           grp 10 (alts [seqs [lit ''00'', cls (in_range 49 57)],
                         seqs [chr CHR ''0'', cls (in_range 49 57), digit],
                         seqs [cls (one_of ''12''), rx_times 2 digit],
                         seqs [chr CHR ''3'',
                               grp 11 (alts [seqs [cls (one_of ''012345''), digit],
                                             seqs [chr CHR ''6'', cls (in_range 49 54)]])]])]),
         opt (grp 12 (seqs [
           cls (\<lambda>c. c = CHR ''T'' \<or> is_space c),
           opt (grp 13 (seqs [
             grp 14 (alts [
               seqs [grp 15 hour24, opt (grp 16 (seqs [grp 17 (opt (chr CHR '':'')), sixty]))],
               seqs [lit ''24'', opt (chr CHR '':''), lit ''00'']]),
             opt (grp 18 (seqs [cls (one_of ''.,''), rx_plus digit, not_ahead (chr CHR '':'')]))])),
           opt (grp 19 (seqs [backref 17, sixty,
                              opt (grp 20 (seqs [cls (one_of ''.,''), rx_plus digit]))])),
           opt (grp 21 (alts [
             cls (one_of ''zZ''),
             seqs [grp 22 (cls (one_of ''+-'')), grp 23 hour24, opt (chr CHR '':''),
                   opt (grp 24 sixty)]]))]))])),
       eol]"

definition v_isISO8601 :: "string \<Rightarrow> bool" where
  \<comment> \<open>\<open>isISO8601(str)\<close> without the \<open>strict\<close> option: the pattern alone decides\<close>
  "v_isISO8601 s = rx_test iso8601 s"

definition password_pattern :: rx where
  \<comment> \<open>\<open>/^(?=.*[a-z])(?=.*[A-Z])(?=.*\d)/\<close>\<close>
  "password_pattern =
     seqs [bol,
       ahead (seqs [rx_star dot, cls is_lower]),
       ahead (seqs [rx_star dot, cls is_upper]),
       ahead (seqs [rx_star dot, digit])]"

definition phone_pattern :: rx where
  \<comment> \<open>\<open>/^[+]?[(]?[0-9]{1,4}[)]?[-\s.]?[(]?[0-9]{1,4}[)]?[-\s.]?[0-9]{1,9}$/\<close>\<close>
  "phone_pattern =
     seqs [bol,
       opt (chr CHR ''+''), opt (chr CHR ''(''), rx_between 1 4 digit, opt (chr CHR '')''),
       opt (cls (\<lambda>c. c = CHR ''-'' \<or> is_space c \<or> c = CHR ''.'')),
       opt (chr CHR ''(''), rx_between 1 4 digit, opt (chr CHR '')''),
       opt (cls (\<lambda>c. c = CHR ''-'' \<or> is_space c \<or> c = CHR ''.'')),
       rx_between 1 9 digit,
       eol]"

section \<open>Field validation: \<open>server/middlewares/validator.js\<close>\<close>

subsection \<open>Validation chains\<close>

text \<open>
  A chain names one field of the body and holds a stack of items: sanitizers, which replace
  the field's value, and validators, which test it and carry a message. A body field is
  absent (\<open>undefined\<close>) or a string. Every item runs, in order, on the value as the
  sanitizers before it left it; a failed validator adds an error and does not stop the chain.
  A chain marked optional is skipped as a whole when its field is absent.
\<close>

datatype item = Sanitizer "string \<Rightarrow> string" | Validator bool "string \<Rightarrow> bool" string

record chain =
  field :: string
  is_optional :: bool
  stack :: "item list"

record verror =
  param :: string
  msg :: string
  val :: "string option"

definition stringify :: "string option \<Rightarrow> string" where
  \<comment> \<open>the string a standard validator or sanitizer sees: \<open>undefined\<close> reads as the empty string\<close>
  "stringify v = (case v of None \<Rightarrow> [] | Some s \<Rightarrow> s)"

definition add_validator :: "bool \<Rightarrow> (string \<Rightarrow> bool) \<Rightarrow> chain \<Rightarrow> chain" where
  "add_validator negated test c = c\<lparr>stack := stack c @ [Validator negated test ''Invalid value'']\<rparr>"

definition add_sanitizer :: "(string \<Rightarrow> string) \<Rightarrow> chain \<Rightarrow> chain" where
  "add_sanitizer f c = c\<lparr>stack := stack c @ [Sanitizer f]\<rparr>"

fun set_message :: "string \<Rightarrow> item list \<Rightarrow> item list" where
  \<comment> \<open>on the reversed stack: the message goes to the validator added last\<close>
  "set_message m [] = []"
| "set_message m (Validator negated test old # is) = Validator negated test m # is"
| "set_message m (Sanitizer f # is) = Sanitizer f # set_message m is"

definition withMessage :: "string \<Rightarrow> chain \<Rightarrow> chain" where
  "withMessage m c = c\<lparr>stack := rev (set_message m (rev (stack c)))\<rparr>"

definition optional :: "chain \<Rightarrow> chain" where
  "optional c = c\<lparr>is_optional := True\<rparr>"

definition trim :: "chain \<Rightarrow> chain" where
  "trim = add_sanitizer trim_str"

definition normalizeEmail :: "(string \<Rightarrow> string) \<Rightarrow> chain \<Rightarrow> chain" where
  \<comment> \<open>The library's normalisation (lower case, provider-specific rewriting from tables of
      domains) is a parameter: it is the last item of its chains, so no validator reads its
      result.\<close>
  "normalizeEmail norm = add_sanitizer norm"

definition notEmpty :: "chain \<Rightarrow> chain" where
  \<comment> \<open>\<open>not().isEmpty()\<close>\<close>
  "notEmpty = add_validator True v_isEmpty"

definition isLength :: "nat option \<Rightarrow> nat option \<Rightarrow> chain \<Rightarrow> chain" where
  "isLength mn mx = add_validator False (v_isLength mn mx)"

definition isEmail :: "chain \<Rightarrow> chain" where
  "isEmail = add_validator False v_isEmail"

definition isIn :: "string list \<Rightarrow> chain \<Rightarrow> chain" where
  "isIn vs = add_validator False (v_isIn vs)"

definition isISO8601 :: "chain \<Rightarrow> chain" where
  "isISO8601 = add_validator False v_isISO8601"

definition matches :: "rx \<Rightarrow> chain \<Rightarrow> chain" where
  "matches pattern = add_validator False (rx_test pattern)"

definition body_chain :: "string \<Rightarrow> (chain \<Rightarrow> chain) list \<Rightarrow> chain" where
  \<comment> \<open>\<open>body(f).call1().call2()...\<close>: the calls applied from left to right\<close>
  "body_chain f calls = fold (\<lambda>call c. call c) calls \<lparr>field = f, is_optional = False, stack = []\<rparr>"

fun run_item :: "string \<Rightarrow> item \<Rightarrow> string option \<times> verror list \<Rightarrow> string option \<times> verror list" where
  "run_item f (Sanitizer g) (v, es) = (Some (g (stringify v)), es)"
| "run_item f (Validator negated test m) (v, es) =
     (v, if (if negated then test (stringify v) else \<not> test (stringify v))
         then es @ [\<lparr>param = f, msg = m, val = v\<rparr>] else es)"

definition run :: "chain \<Rightarrow> fields \<Rightarrow> string option \<times> verror list" where
  \<comment> \<open>\<open>validation.run(req)\<close>: the field's final value and the chain's errors\<close>
  "run c b =
     (let v = b (field c) in
      if is_optional c \<and> v = None then (v, [])
      else fold (run_item (field c)) (stack c) (v, []))"

subsection \<open>The middleware\<close>

record json =
  success :: bool
  errors :: "verror list"

datatype result = Next request | Respond nat json

text \<open>
  Every chain reads its field from the request as it arrived, and writes the sanitized value
  back. The errors of all chains are collected; the chains run concurrently and the library
  lists their errors in the order in which the runs complete, which the model replaces by the
  order of declaration.
\<close>

definition validate :: "chain list \<Rightarrow> request \<Rightarrow> result" where
  "validate validations req =
     (let runs = map (\<lambda>validation. (field validation, run validation (body req))) validations;
          errs = concat (map (\<lambda>(f, v, es). es) runs);
          req' = req\<lparr>body := fold (\<lambda>(f, v, es) b. b(f := v)) runs (body req)\<rparr>
      in if errs = [] then Next req'
         else Respond 400 \<lparr>success = False, errors = errs\<rparr>)"

subsection \<open>The rule sets\<close>

definition registerValidation :: "(string \<Rightarrow> string) \<Rightarrow> chain list" where
  "registerValidation norm =
     [body_chain ''name''
        [trim,
         notEmpty, withMessage ''Name is required'',
         isLength None (Some 100), withMessage ''Name cannot exceed 100 characters''],
      body_chain ''email''
        [trim,
         isEmail, withMessage ''Please provide a valid email'',
         normalizeEmail norm],
      body_chain ''password''
        [isLength (Some 8) None, withMessage ''Password must be at least 8 characters'',
         matches password_pattern,
         withMessage ''Password must contain at least one uppercase letter, one lowercase letter, and one number''],
      body_chain ''role''
        [optional,
         isIn [''patient'', ''doctor'', ''admin''], withMessage ''Invalid role''],
      body_chain ''phone''
        [optional,
         trim,
         matches phone_pattern, withMessage ''Invalid phone number'']]"

definition loginValidation :: "(string \<Rightarrow> string) \<Rightarrow> chain list" where
  "loginValidation norm =
     [body_chain ''email''
        [trim,
         isEmail, withMessage ''Please provide a valid email'',
         normalizeEmail norm],
      body_chain ''password''
        [notEmpty, withMessage ''Password is required'']]"

definition appointmentValidation :: "chain list" where
  "appointmentValidation =
     [body_chain ''doctor''
        [notEmpty, withMessage ''Doctor is required''],
      body_chain ''appointmentDate''
        [notEmpty, withMessage ''Appointment date is required'',
         isISO8601, withMessage ''Invalid date format''],
      body_chain ''appointmentTime''
        [notEmpty, withMessage ''Appointment time is required'',
         trim],
      body_chain ''reason''
        [optional,
         trim,
         isLength None (Some 500), withMessage ''Reason cannot exceed 500 characters'']]"

definition symptomValidation :: "chain list" where
  "symptomValidation =
     [body_chain ''symptoms''
        [notEmpty, withMessage ''Symptoms are required'',
         trim,
         isLength (Some 10) None,
         withMessage ''Please provide at least 10 characters describing your symptoms'',
         isLength None (Some 2000),
         withMessage ''Symptoms description cannot exceed 2000 characters'']]"

text \<open>
  Which fields a response cites, and the failures a chain produces stated rule by rule: the
  validator at position \<open>i\<close> of the stack fails on the value that the sanitizers before it
  have produced.
\<close>

definition cites :: "result \<Rightarrow> string \<Rightarrow> bool" where
  "cites r f = (case r of Next _ \<Rightarrow> False | Respond _ js \<Rightarrow> f \<in> param ` set (errors js))"

fun sanitize :: "item \<Rightarrow> string option \<Rightarrow> string option" where
  "sanitize (Sanitizer g) v = Some (g (stringify v))"
| "sanitize (Validator negated test m) v = v"

definition item_failures :: "string \<Rightarrow> item list \<Rightarrow> string option \<Rightarrow> (string \<times> string) set" where
  "item_failures f items v =
     {(f, m) | i m. i < length items \<and>
        (\<exists>negated test. items ! i = Validator negated test m \<and>
           negated = test (stringify (fold sanitize (take i items) v)))}"

definition failures :: "chain \<Rightarrow> fields \<Rightarrow> (string \<times> string) set" where
  "failures c b =
     (if is_optional c \<and> b (field c) = None then {}
      else item_failures (field c) (stack c) (b (field c)))"

section \<open>The appointment form of the client\<close>

text \<open>
  The component holds the form data, the error message of each field, and two flags. Two of
  its checks read the clock or compute with floating-point numbers; they enter as
  parameters: \<open>not_future date\<close> stands for \<open>selectedDate <= today\<close> and
  \<open>outside_hours time\<close> for \<open>hour < 9 || hour > 17\<close>.
\<close>

record formData =
  doctor :: string
  appointmentDate :: string
  appointmentTime :: string
  reason :: string
  symptoms :: string

record component =
  form :: formData
  field_errors :: "string \<Rightarrow> string option"
  showForm :: bool
  showSuccess :: bool

record clock =
  not_future :: "string \<Rightarrow> bool"
  outside_hours :: "string \<Rightarrow> bool"

definition validateDoctor :: "string \<Rightarrow> string" where
  "validateDoctor d = (if d = [] \<or> d = [] then ''Doctor selection is required'' else [])"

definition validateDate :: "clock \<Rightarrow> string \<Rightarrow> string" where
  "validateDate k date =
     (if date = [] then []
      else if not_future k date then ''Date must be in the future''
      else [])"

definition validateTime :: "clock \<Rightarrow> string \<Rightarrow> string" where
  "validateTime k time =
     (if time = [] then []
      else if outside_hours k time then ''Time must be during business hours (9 AM - 5 PM)''
      else [])"

definition validateReason :: "string \<Rightarrow> string" where
  "validateReason r =
     (if r = [] \<or> trim_str r = [] then ''Reason field must be at least 10 characters''
      else if length (trim_str r) < 10 then ''Reason field must be at least 10 characters''
      else [])"

definition validateField :: "clock \<Rightarrow> string \<Rightarrow> string \<Rightarrow> component \<Rightarrow> bool \<times> component" where
  "validateField k name v st =
     (let error =
        (if name = ''doctor'' then validateDoctor v
         else if name = ''appointmentDate'' then validateDate k v
         else if name = ''appointmentTime'' then validateTime k v
         else if name = ''reason'' then validateReason v
         else [])
      in (error = [], st\<lparr>field_errors := (field_errors st)(name \<mapsto> error)\<rparr>))"

definition validateForm :: "clock \<Rightarrow> component \<Rightarrow> bool \<times> component" where
  "validateForm k st =
     (let (doctorValid, st1) = validateField k ''doctor'' (doctor (form st)) st;
          (dateValid, st2) = validateField k ''appointmentDate'' (appointmentDate (form st)) st1;
          (timeValid, st3) = validateField k ''appointmentTime'' (appointmentTime (form st)) st2;
          (reasonValid, st4) = validateField k ''reason'' (reason (form st)) st3
      in (doctorValid \<and> dateValid \<and> timeValid \<and> reasonValid, st4))"

text \<open>
  What the submit handler does to the outside: it cancels the browser's own submission, and
  then the request it sends, the list it reloads, the alert it shows, the timer it starts. The answer of the server to the creation request is
  an argument: success, or a failure with the message of the response if it has one.
\<close>

datatype effect =
  PreventDefault | CreateAppointment formData | FetchAppointments | Alert string
  | HideSuccessAfter nat

datatype created = Created | Failed "string option"

definition emptyForm :: formData where
  "emptyForm = \<lparr>doctor = [], appointmentDate = [], appointmentTime = [], reason = [], symptoms = []\<rparr>"

definition handleSubmit :: "clock \<Rightarrow> created \<Rightarrow> component \<Rightarrow> component \<times> effect list" where
  "handleSubmit k answer st =
     (let (valid, st1) = validateForm k st in
      if \<not> valid then (st1, [PreventDefault])
      else
        (case answer of
           Created \<Rightarrow>
             (st1\<lparr>showForm := False, form := emptyForm, field_errors := Map.empty,
                  showSuccess := True\<rparr>,
              [PreventDefault, CreateAppointment (form st), HideSuccessAfter 5000,
               FetchAppointments])
         | Failed m \<Rightarrow>
             (st1,
              [PreventDefault, CreateAppointment (form st),
               Alert (case m of None \<Rightarrow> ''Failed to create appointment''
                      | Some t \<Rightarrow> if t = [] then ''Failed to create appointment'' else t)])))"

definition sends_request :: "effect list \<Rightarrow> bool" where
  "sends_request es = list_ex (\<lambda>e. case e of CreateAppointment _ \<Rightarrow> True | _ \<Rightarrow> False) es"

section \<open>Calendar dates\<close>

text \<open>
  What it means for a text of the form \<open>YYYY-MM-DD\<close> to name a day of the calendar: the month
  is between 1 and 12 and the day exists in that month of that year. This is the notion the
  date rule is compared with; it is not part of the program. A text of another form is not
  judged (\<open>None\<close>).
\<close>

definition leap_year :: "nat \<Rightarrow> bool" where
  "leap_year y = ((y mod 4 = 0 \<and> y mod 100 \<noteq> 0) \<or> y mod 400 = 0)"

definition days_in_month :: "nat \<Rightarrow> nat \<Rightarrow> nat" where
  "days_in_month y m =
     (if m = 2 then (if leap_year y then 29 else 28)
      else if m = 4 \<or> m = 6 \<or> m = 9 \<or> m = 11 then 30
      else 31)"

definition digits_value :: "string \<Rightarrow> nat" where
  "digits_value ds = fold (\<lambda>c n. 10 * n + ((of_char c :: nat) - 48)) ds 0"

definition calendar_day_exists :: "string \<Rightarrow> bool option" where
  "calendar_day_exists s =
     (case split_on CHR ''-'' s of
        [y, m, d] \<Rightarrow>
          if length y = 4 \<and> length m = 2 \<and> length d = 2 \<and> list_all is_digit (y @ m @ d)
          then Some (1 \<le> digits_value m \<and> digits_value m \<le> 12 \<and> 1 \<le> digits_value d
                     \<and> digits_value d \<le> days_in_month (digits_value y) (digits_value m))
          else None
      | _ \<Rightarrow> None)"

text \<open>The request that \<open>next()\<close> hands on: each chain has written its field's final value.\<close>

definition sanitized :: "chain list \<Rightarrow> request \<Rightarrow> request" where
  "sanitized vs req =
     req\<lparr>body := fold (\<lambda>(f, v, es) b. b(f := v))
                    (map (\<lambda>c. (field c, run c (body req))) vs) (body req)\<rparr>"

section \<open>Properties of the access gate\<close>

lemma handle_router_authenticated:
  assumes "user req = Some p"
  shows "handle router req =
     (if handles_method GET (req_method req) \<and> match_path [Lit ''stats''] (path req)
        then Invoked getDashboardStats
      else if handles_method GET (req_method req) \<and> match_path [Lit ''trends''] (path req)
        then Invoked getHealthTrends
      else if handles_method GET (req_method req) \<and> match_path [] (path req)
        then (case authorizeUsersList req of Some e \<Rightarrow> Halted e | None \<Rightarrow> Invoked getUsers)
      else if handles_method GET (req_method req) \<and> match_path [Param] (path req)
        then (case authorize [''admin'', ''doctor''] req of
                Some e \<Rightarrow> Halted e | None \<Rightarrow> Invoked getUserById)
      else if handles_method PUT (req_method req) \<and> match_path [Param] (path req)
        then (case authorize [''admin''] req of Some e \<Rightarrow> Halted e | None \<Rightarrow> Invoked updateUser)
      else if handles_method DELETE (req_method req) \<and> match_path [Param] (path req)
        then (case authorize [''admin''] req of Some e \<Rightarrow> Halted e | None \<Rightarrow> Invoked deleteUser)
      else Unmatched)"
  using assms by (simp add: router_def protect_def split: option.splits)

lemma list_route:
  assumes "user req = Some p" and "req_method req = GET" and "path req = []"
  shows "handle router req =
           (case authorizeUsersList req of Some e \<Rightarrow> Halted e | None \<Rightarrow> Invoked getUsers)"
  using assms by (simp add: handle_router_authenticated handles_method_def match_path_def)

text \<open>
  Claim C1. A principal with role \<open>patient\<close> sends \<open>GET /\<close> (the user list). The gate
  \<open>authorizeUsersList\<close> lets the request through, and the router reaches \<open>getUsers\<close>, if and
  only if the query parameter \<open>role\<close> is the string \<open>doctor\<close>; in every other case the
  request is halted with Forbidden.
\<close>

theorem patient_lists_doctors_only:
  assumes "user req = Some p" and "role p = ''patient''"
    and "req_method req = GET" and "path req = []"
  shows "(authorizeUsersList req = None \<longleftrightarrow> query req ''role'' = Some (QString ''doctor''))
       \<and> (handle router req = Invoked getUsers \<longleftrightarrow> query req ''role'' = Some (QString ''doctor''))
       \<and> (query req ''role'' \<noteq> Some (QString ''doctor'') \<longrightarrow>
            authorizeUsersList req = Some Forbidden \<and> handle router req = Halted Forbidden)"
  using assms by (simp add: list_route authorizeUsersList_def authorize_def)

theorem patient_lists_doctors_only_witness:
  "handle router \<lparr>req_method = GET, path = [], user = Some \<lparr>ident = ''p1'', role = ''patient''\<rparr>,
       query = [''role'' \<mapsto> QString ''doctor''], body = Map.empty\<rparr> = Invoked getUsers
   \<and> handle router \<lparr>req_method = GET, path = [], user = Some \<lparr>ident = ''p1'', role = ''patient''\<rparr>,
       query = [''role'' \<mapsto> QString ''patient''], body = Map.empty\<rparr> = Halted Forbidden
   \<and> handle router \<lparr>req_method = GET, path = [], user = Some \<lparr>ident = ''p1'', role = ''patient''\<rparr>,
       query = Map.empty, body = Map.empty\<rparr> = Halted Forbidden"
  using
    patient_lists_doctors_only
      [of "\<lparr>req_method = GET, path = [], user = Some \<lparr>ident = ''p1'', role = ''patient''\<rparr>,
            query = [''role'' \<mapsto> QString ''doctor''], body = Map.empty\<rparr>"
          "\<lparr>ident = ''p1'', role = ''patient''\<rparr>"]
    patient_lists_doctors_only
      [of "\<lparr>req_method = GET, path = [], user = Some \<lparr>ident = ''p1'', role = ''patient''\<rparr>,
            query = [''role'' \<mapsto> QString ''patient''], body = Map.empty\<rparr>"
          "\<lparr>ident = ''p1'', role = ''patient''\<rparr>"]
    patient_lists_doctors_only
      [of "\<lparr>req_method = GET, path = [], user = Some \<lparr>ident = ''p1'', role = ''patient''\<rparr>,
            query = Map.empty, body = Map.empty\<rparr>"
          "\<lparr>ident = ''p1'', role = ''patient''\<rparr>"]
  by simp

text \<open>
  Claim C2. A request that carries no principal is halted by \<open>protect\<close> with Unauthenticated
  before any route is tried, so no handler is invoked, whatever the method, path, query and
  body: this covers the stats, trends, list, get-by-id, update and delete routes.
\<close>

theorem no_principal_unauthenticated:
  assumes "user req = None"
  shows "handle router req = Halted Unauthenticated \<and> (\<forall>h. handle router req \<noteq> Invoked h)"
  using assms by (simp add: router_def protect_def)

theorem no_principal_unauthenticated_witness:
  "handle router \<lparr>req_method = DELETE, path = [''42''], user = None, query = Map.empty,
       body = [''name'' \<mapsto> ''x'']\<rparr> = Halted Unauthenticated
   \<and> handle router \<lparr>req_method = GET, path = [''stats''], user = None,
       query = [''role'' \<mapsto> QString ''doctor''], body = Map.empty\<rparr> = Halted Unauthenticated"
  using
    no_principal_unauthenticated
      [of "\<lparr>req_method = DELETE, path = [''42''], user = None, query = Map.empty,
            body = [''name'' \<mapsto> ''x'']\<rparr>"]
    no_principal_unauthenticated
      [of "\<lparr>req_method = GET, path = [''stats''], user = None,
            query = [''role'' \<mapsto> QString ''doctor''], body = Map.empty\<rparr>"]
  by simp

text \<open>
  Claim C3. A principal whose role is \<open>admin\<close> or \<open>doctor\<close> sends \<open>GET /\<close>: the gate lets
  the request through and the router reaches \<open>getUsers\<close>, for every query.
\<close>

theorem staff_list_users_any_query:
  assumes "user req = Some p" and "role p = ''admin'' \<or> role p = ''doctor''"
    and "req_method req = GET" and "path req = []"
  shows "authorizeUsersList req = None \<and> handle router req = Invoked getUsers"
  using assms by (auto simp add: list_route authorizeUsersList_def authorize_def)

theorem staff_list_users_any_query_witness:
  "handle router \<lparr>req_method = GET, path = [], user = Some \<lparr>ident = ''d1'', role = ''doctor''\<rparr>,
       query = [''role'' \<mapsto> QString ''patient''], body = Map.empty\<rparr> = Invoked getUsers
   \<and> handle router \<lparr>req_method = GET, path = [], user = Some \<lparr>ident = ''a1'', role = ''admin''\<rparr>,
       query = Map.empty, body = Map.empty\<rparr> = Invoked getUsers"
  using
    staff_list_users_any_query
      [of "\<lparr>req_method = GET, path = [], user = Some \<lparr>ident = ''d1'', role = ''doctor''\<rparr>,
            query = [''role'' \<mapsto> QString ''patient''], body = Map.empty\<rparr>"
          "\<lparr>ident = ''d1'', role = ''doctor''\<rparr>"]
    staff_list_users_any_query
      [of "\<lparr>req_method = GET, path = [], user = Some \<lparr>ident = ''a1'', role = ''admin''\<rparr>,
            query = Map.empty, body = Map.empty\<rparr>"
          "\<lparr>ident = ''a1'', role = ''admin''\<rparr>"]
  by simp

section \<open>Properties of the validation middleware\<close>

subsection \<open>The errors of a chain\<close>

lemma fold_run_item_fst:
  "fst (fold (run_item f) items (v, es)) = fold sanitize items v"
proof (induction items arbitrary: v es)
  case Nil
  show ?case by simp
next
  case (Cons x xs)
  show ?case by (cases x) (simp_all add: Cons.IH)
qed

lemma item_failures_snoc:
  "item_failures f (items @ [x]) v =
     item_failures f items v \<union>
     (case x of Sanitizer g \<Rightarrow> {}
      | Validator negated test m \<Rightarrow>
          if negated = test (stringify (fold sanitize items v)) then {(f, m)} else {})"
  unfolding item_failures_def
  by (cases x) (auto simp add: nth_append less_Suc_eq split: if_splits)

lemma fold_run_item_errors:
  "(\<lambda>e. (param e, msg e)) ` set (snd (fold (run_item f) items (v, []))) = item_failures f items v"
proof (induction items rule: rev_induct)
  case Nil
  show ?case by (simp add: item_failures_def)
next
  case (snoc x xs)
  obtain w es where r: "fold (run_item f) xs (v, []) = (w, es)"
    by (cases "fold (run_item f) xs (v, [])")
  have w: "w = fold sanitize xs v"
    using fold_run_item_fst [of f xs v "[]"] r by simp
  from snoc r have es: "(\<lambda>e. (param e, msg e)) ` set es = item_failures f xs v"
    by simp
  show ?case
    by (cases x) (auto simp add: r w es [symmetric] item_failures_snoc image_Un)
qed

lemma run_failures:
  "(\<lambda>e. (param e, msg e)) ` set (snd (run c b)) = failures c b"
proof (cases "is_optional c \<and> b (field c) = None")
  case True
  then show ?thesis by (auto simp add: run_def failures_def)
next
  case False
  then have "snd (run c b) = snd (fold (run_item (field c)) (stack c) (b (field c), []))"
    by (auto simp add: run_def Let_def)
  moreover from False have "failures c b = item_failures (field c) (stack c) (b (field c))"
    by (auto simp add: failures_def)
  ultimately show ?thesis by (simp add: fold_run_item_errors)
qed

lemma run_item_param:
  "\<forall>e\<in>set es. param e = f \<Longrightarrow> \<forall>e\<in>set (snd (fold (run_item f) items (v, es))). param e = f"
proof (induction items arbitrary: v es)
  case Nil
  then show ?case by simp
next
  case (Cons x xs)
  show ?case
  proof (cases x)
    case (Sanitizer g)
    with Cons show ?thesis by simp
  next
    case (Validator negated test m)
    with Cons.prems show ?thesis
      by (simp only: fold_simps run_item.simps split: if_splits)
         (intro impI conjI Cons.IH; simp)+
  qed
qed

lemma run_param: "e \<in> set (snd (run c b)) \<Longrightarrow> param e = field c"
  using run_item_param [of "[]" "field c" "stack c" "b (field c)"]
  by (auto simp add: run_def Let_def split: if_splits)

subsection \<open>The middleware\<close>

lemma validate_unfold:
  "validate vs req =
     (if \<forall>c\<in>set vs. snd (run c (body req)) = [] then Next (sanitized vs req)
      else Respond 400 \<lparr>success = False, errors = concat (map (\<lambda>c. snd (run c (body req))) vs)\<rparr>)"
  by (simp add: validate_def Let_def sanitized_def comp_def split_def)

lemma next_validate:
  "(\<exists>r. validate vs req = Next r) \<longleftrightarrow> (\<forall>c\<in>set vs. snd (run c (body req)) = [])"
  by (simp add: validate_unfold)

lemma cites_validate:
  "cites (validate vs req) f \<longleftrightarrow> (\<exists>c\<in>set vs. field c = f \<and> snd (run c (body req)) \<noteq> [])"
proof (cases "\<forall>c\<in>set vs. snd (run c (body req)) = []")
  case True
  then show ?thesis by (auto simp add: validate_unfold cites_def)
next
  case False
  have "f \<in> param ` (\<Union>c\<in>set vs. set (snd (run c (body req))))
          \<longleftrightarrow> (\<exists>c\<in>set vs. field c = f \<and> snd (run c (body req)) \<noteq> [])"
  proof
    assume "f \<in> param ` (\<Union>c\<in>set vs. set (snd (run c (body req))))"
    then obtain e c where "c \<in> set vs" "e \<in> set (snd (run c (body req)))" "param e = f"
      by auto
    then show "\<exists>c\<in>set vs. field c = f \<and> snd (run c (body req)) \<noteq> []"
      using run_param [of e c "body req"] by auto
  next
    assume "\<exists>c\<in>set vs. field c = f \<and> snd (run c (body req)) \<noteq> []"
    then obtain c where c: "c \<in> set vs" "field c = f" "snd (run c (body req)) \<noteq> []"
      by auto
    then obtain e where e: "e \<in> set (snd (run c (body req)))"
      by (cases "snd (run c (body req))") auto
    then have "param e = f" using run_param [of e c "body req"] c by simp
    with c e show "f \<in> param ` (\<Union>c\<in>set vs. set (snd (run c (body req))))"
      by force
  qed
  with False show ?thesis by (simp add: validate_unfold cites_def)
qed

lemmas call_defs = body_chain_def add_validator_def add_sanitizer_def withMessage_def optional_def
  trim_def normalizeEmail_def notEmpty_def isLength_def isEmail_def isIn_def isISO8601_def matches_def

lemma registerValidation_chains:
  "registerValidation norm =
     [\<lparr>field = ''name'', is_optional = False,
       stack = [Sanitizer trim_str,
                Validator True v_isEmpty ''Name is required'',
                Validator False (v_isLength None (Some 100)) ''Name cannot exceed 100 characters'']\<rparr>,
      \<lparr>field = ''email'', is_optional = False,
       stack = [Sanitizer trim_str,
                Validator False v_isEmail ''Please provide a valid email'',
                Sanitizer norm]\<rparr>,
      \<lparr>field = ''password'', is_optional = False,
       stack = [Validator False (v_isLength (Some 8) None) ''Password must be at least 8 characters'',
                Validator False (rx_test password_pattern)
                  ''Password must contain at least one uppercase letter, one lowercase letter, and one number'']\<rparr>,
      \<lparr>field = ''role'', is_optional = True,
       stack = [Validator False (v_isIn [''patient'', ''doctor'', ''admin'']) ''Invalid role'']\<rparr>,
      \<lparr>field = ''phone'', is_optional = True,
       stack = [Sanitizer trim_str,
                Validator False (rx_test phone_pattern) ''Invalid phone number'']\<rparr>]"
  by (simp add: registerValidation_def call_defs)

lemma appointmentValidation_chains:
  "appointmentValidation =
     [\<lparr>field = ''doctor'', is_optional = False,
       stack = [Validator True v_isEmpty ''Doctor is required'']\<rparr>,
      \<lparr>field = ''appointmentDate'', is_optional = False,
       stack = [Validator True v_isEmpty ''Appointment date is required'',
                Validator False v_isISO8601 ''Invalid date format'']\<rparr>,
      \<lparr>field = ''appointmentTime'', is_optional = False,
       stack = [Validator True v_isEmpty ''Appointment time is required'',
                Sanitizer trim_str]\<rparr>,
      \<lparr>field = ''reason'', is_optional = True,
       stack = [Sanitizer trim_str,
                Validator False (v_isLength None (Some 500)) ''Reason cannot exceed 500 characters'']\<rparr>]"
  by (simp add: appointmentValidation_def call_defs)

lemma symptomValidation_chains:
  "symptomValidation =
     [\<lparr>field = ''symptoms'', is_optional = False,
       stack = [Validator True v_isEmpty ''Symptoms are required'',
                Sanitizer trim_str,
                Validator False (v_isLength (Some 10) None)
                  ''Please provide at least 10 characters describing your symptoms'',
                Validator False (v_isLength None (Some 2000))
                  ''Symptoms description cannot exceed 2000 characters'']\<rparr>]"
  by (simp add: symptomValidation_def call_defs)

lemma run_no_errors: "snd (run c b) = [] \<longleftrightarrow> failures c b = {}"
  using run_failures [of c b] by auto

lemma validate_errors_image:
  "(\<lambda>e. (param e, msg e)) ` set (concat (map (\<lambda>c. snd (run c b)) vs)) = (\<Union>c\<in>set vs. failures c b)"
  by (simp add: image_UN run_failures)

lemma symptoms_absent_errors:
  "b ''symptoms'' = None \<Longrightarrow>
   snd (run (hd symptomValidation) b) =
     [\<lparr>param = ''symptoms'', msg = ''Symptoms are required'', val = None\<rparr>,
      \<lparr>param = ''symptoms'',
       msg = ''Please provide at least 10 characters describing your symptoms'',
       val = Some []\<rparr>]"
  by (simp add: symptomValidation_chains run_def Let_def stringify_def v_isEmpty_def v_isLength_def
      trim_str_def)

lemma symptoms_example_trim: "trim_str ''a cough for three days'' = ''a cough for three days''"
  by code_simp

lemma symptoms_absent_failures:
  "(\<Union>c\<in>set symptomValidation. failures c Map.empty)
        = {(''symptoms'', ''Symptoms are required''),
           (''symptoms'', ''Please provide at least 10 characters describing your symptoms'')}"
proof -
  have "failures (hd symptomValidation) Map.empty
        = {(''symptoms'', ''Symptoms are required''),
           (''symptoms'', ''Please provide at least 10 characters describing your symptoms'')}"
    unfolding run_failures [symmetric]
    by (simp add: symptoms_absent_errors)
  then show ?thesis by (simp add: symptomValidation_chains)
qed

lemma symptoms_example_failures:
  "\<forall>c\<in>set symptomValidation. failures c [''symptoms'' \<mapsto> ''a cough for three days''] = {}"
  unfolding run_no_errors [symmetric]
  by (simp add: symptomValidation_chains run_def Let_def stringify_def
        v_isEmpty_def v_isLength_def symptoms_example_trim)

text \<open>
  Claim C4. When no rule of any chain of the rule set fails on the body, the middleware calls
  \<open>next()\<close> and the request continues to the handler. When at least one rule fails, the
  middleware does not call \<open>next()\<close>: it responds with status 400 and an object whose
  \<open>success\<close> is false and whose \<open>errors\<close> holds, as (field, message) pairs, exactly the
  failures of every rule of every chain: all of them, not the first one only.
\<close>

theorem validate_reports_every_failure:
  "((\<forall>c\<in>set vs. failures c (body req) = {}) \<longrightarrow> validate vs req = Next (sanitized vs req))
   \<and> ((\<exists>c\<in>set vs. failures c (body req) \<noteq> {}) \<longrightarrow>
        (\<exists>js. validate vs req = Respond 400 js \<and> success js = False \<and>
              (\<lambda>e. (param e, msg e)) ` set (errors js) = (\<Union>c\<in>set vs. failures c (body req))))"
proof (intro conjI impI)
  assume "\<forall>c\<in>set vs. failures c (body req) = {}"
  then show "validate vs req = Next (sanitized vs req)"
    by (simp add: validate_unfold run_no_errors)
next
  assume "\<exists>c\<in>set vs. failures c (body req) \<noteq> {}"
  then have "\<not> (\<forall>c\<in>set vs. snd (run c (body req)) = [])"
    by (simp add: run_no_errors)
  then have "validate vs req =
      Respond 400 \<lparr>success = False, errors = concat (map (\<lambda>c. snd (run c (body req))) vs)\<rparr>"
    by (simp only: validate_unfold if_False)
  moreover have "(\<lambda>e. (param e, msg e)) ` set (concat (map (\<lambda>c. snd (run c (body req))) vs))
                   = (\<Union>c\<in>set vs. failures c (body req))"
    by (rule validate_errors_image)
  ultimately show "\<exists>js. validate vs req = Respond 400 js \<and> success js = False \<and>
              (\<lambda>e. (param e, msg e)) ` set (errors js) = (\<Union>c\<in>set vs. failures c (body req))"
    by simp
qed

theorem validate_reports_every_failure_witness:
  "(\<exists>js. validate symptomValidation
            \<lparr>req_method = POST, path = [], user = None, query = Map.empty, body = Map.empty\<rparr>
          = Respond 400 js \<and> success js = False \<and>
          (\<lambda>e. (param e, msg e)) ` set (errors js)
            = {(''symptoms'', ''Symptoms are required''),
               (''symptoms'', ''Please provide at least 10 characters describing your symptoms'')})
   \<and> validate symptomValidation
         \<lparr>req_method = POST, path = [], user = None, query = Map.empty,
          body = [''symptoms'' \<mapsto> ''a cough for three days'']\<rparr>
       = Next (sanitized symptomValidation
           \<lparr>req_method = POST, path = [], user = None, query = Map.empty,
            body = [''symptoms'' \<mapsto> ''a cough for three days'']\<rparr>)"
proof (rule conjI)
  let ?bad = "\<lparr>req_method = POST, path = [], user = None, query = Map.empty, body = Map.empty\<rparr>"
  have "(\<Union>c\<in>set symptomValidation. failures c Map.empty) \<noteq> {}"
    by (simp only: symptoms_absent_failures insert_not_empty not_False_eq_True)
  then have "\<exists>c\<in>set symptomValidation. failures c (body ?bad) \<noteq> {}"
    by simp
  with validate_reports_every_failure [of symptomValidation ?bad, THEN conjunct2]
  have "\<exists>js. validate symptomValidation ?bad = Respond 400 js \<and> success js = False \<and>
              (\<lambda>e. (param e, msg e)) ` set (errors js)
                = (\<Union>c\<in>set symptomValidation. failures c (body ?bad))"
    by (rule mp)
  then show "\<exists>js. validate symptomValidation ?bad = Respond 400 js \<and> success js = False \<and>
              (\<lambda>e. (param e, msg e)) ` set (errors js)
                = {(''symptoms'', ''Symptoms are required''),
               (''symptoms'', ''Please provide at least 10 characters describing your symptoms'')}"
    by (simp only: request.simps symptoms_absent_failures)
next
  let ?good = "\<lparr>req_method = POST, path = [], user = None, query = Map.empty,
                body = [''symptoms'' \<mapsto> ''a cough for three days'']\<rparr>"
  have "\<forall>c\<in>set symptomValidation. failures c (body ?good) = {}"
    using symptoms_example_failures by simp
  with validate_reports_every_failure [of symptomValidation ?good, THEN conjunct1]
  show "validate symptomValidation ?good = Next (sanitized symptomValidation ?good)"
    by (rule mp)
qed

section \<open>Properties of the rule sets\<close>

subsection \<open>Facts about the library functions\<close>

lemma length_trim_str: "length (trim_str s) \<le> length s"
proof -
  have "length (dropWhile is_space (rev (dropWhile is_space s)))
          \<le> length (rev (dropWhile is_space s))"
    by (rule length_dropWhile_le)
  also have "\<dots> \<le> length s"
    by (simp add: length_dropWhile_le)
  finally show ?thesis by (simp add: trim_str_def)
qed

lemma trim_str_spaces:
  assumes "list_all is_space s"
  shows "trim_str s = []"
proof -
  from assms have "dropWhile is_space s = []"
    by (induction s) simp_all
  then show ?thesis by (simp only: trim_str_def rev.simps dropWhile.simps)
qed

lemma cls_result:
  "st' \<in> set (cls P st) \<Longrightarrow> \<exists>c. P c \<and> rest st = c # rest st'"
  by (cases "rest st") (auto simp add: cls_def split: if_splits)

lemma rx_upto_cls_suffix:
  "st' \<in> set (rx_upto n (cls P) st) \<Longrightarrow> \<exists>u. rest st = u @ rest st'"
proof (induction n arbitrary: st)
  case 0
  then show ?case by (simp add: eps_def)
next
  case (Suc n)
  from Suc.prems consider "st' = st"
    | st1 where "st1 \<in> set (cls P st)" "st' \<in> set (rx_upto n (cls P) st1)"
    by (auto simp add: opt_def alt_def seq_def eps_def)
  then show ?case
  proof cases
    case 1
    then show ?thesis by simp
  next
    case 2
    from cls_result [OF 2(1)] obtain c where "rest st = c # rest st1" by blast
    moreover from Suc.IH [OF 2(2)] obtain u where "rest st1 = u @ rest st'" by blast
    ultimately have "rest st = (c # u) @ rest st'" by simp
    then show ?thesis by blast
  qed
qed

lemma dots_then_class:
  assumes "seqs [rx_star dot, cls Q] st \<noteq> []"
  shows "\<exists>c\<in>set (rest st). Q c"
proof -
  from assms have "\<exists>st1\<in>set (rx_star dot st). cls Q st1 \<noteq> []"
    by (auto simp add: seqs_def seq_def eps_def)
  then obtain st1 where 1: "st1 \<in> set (rx_star dot st)" and ne: "cls Q st1 \<noteq> []"
    by blast
  from ne obtain st2 where 2: "st2 \<in> set (cls Q st1)"
    by (cases "cls Q st1") auto
  from 1 obtain u where "rest st = u @ rest st1"
    using rx_upto_cls_suffix [of st1 "length (rest st)" "\<lambda>c. \<not> is_line_terminator c" st]
    by (auto simp add: rx_star_def dot_def)
  moreover from cls_result [OF 2] obtain c where "Q c" "rest st1 = c # rest st2" by blast
  ultimately show ?thesis by auto
qed

lemma password_pattern_test:
  "rx_test password_pattern s \<longleftrightarrow>
     seqs [rx_star dot, cls is_lower] \<lparr>caps = (\<lambda>_. None), seen = [], rest = s\<rparr> \<noteq> [] \<and>
     seqs [rx_star dot, cls is_upper] \<lparr>caps = (\<lambda>_. None), seen = [], rest = s\<rparr> \<noteq> [] \<and>
     seqs [rx_star dot, digit] \<lparr>caps = (\<lambda>_. None), seen = [], rest = s\<rparr> \<noteq> []"
  by (auto simp add: rx_test_def password_pattern_def seqs_def [of "[bol, _, _, _]"] seq_def bol_def
      ahead_def eps_def)

lemma password_pattern_needs:
  assumes "rx_test password_pattern s"
  shows "(\<exists>c\<in>set s. is_lower c) \<and> (\<exists>c\<in>set s. is_upper c) \<and> (\<exists>c\<in>set s. is_digit c)"
  using assms dots_then_class [of is_lower "\<lparr>caps = (\<lambda>_. None), seen = [], rest = s\<rparr>"]
    dots_then_class [of is_upper "\<lparr>caps = (\<lambda>_. None), seen = [], rest = s\<rparr>"]
    dots_then_class [of is_digit "\<lparr>caps = (\<lambda>_. None), seen = [], rest = s\<rparr>"]
  by (simp add: password_pattern_test digit_def)

lemma seq_nonempty: "seq m n st \<noteq> [] \<Longrightarrow> \<exists>st1\<in>set (m st). n st1 \<noteq> []"
  by (auto simp add: seq_def)

lemma grp_nonempty: "grp k m st \<noteq> [] \<Longrightarrow> m st \<noteq> []"
  by (auto simp add: grp_def)

lemma opt_cls_result:
  "st1 \<in> set (opt (cls P) st) \<Longrightarrow> rest st = rest st1 \<or> (\<exists>c. P c \<and> rest st = c # rest st1)"
  using cls_result [of st1 P st] by (auto simp add: opt_def alt_def eps_def)

lemma rx_times_cls_result:
  "st' \<in> set (rx_times n (cls P) st) \<Longrightarrow>
     \<exists>y. rest st = y @ rest st' \<and> length y = n \<and> list_all P y"
proof (induction n arbitrary: st)
  case 0
  then show ?case by (simp add: eps_def)
next
  case (Suc n)
  from Suc.prems obtain st1 where 1: "st1 \<in> set (cls P st)" and 2: "st' \<in> set (rx_times n (cls P) st1)"
    by (auto simp add: seq_def)
  from cls_result [OF 1] obtain c where c: "P c" "rest st = c # rest st1" by blast
  from Suc.IH [OF 2] obtain y where y: "rest st1 = y @ rest st'" "length y = n" "list_all P y"
    by blast
  from c y have "rest st = (c # y) @ rest st' \<and> length (c # y) = Suc n \<and> list_all P (c # y)"
    by simp
  then show ?case by blast
qed

lemma iso_year_prefix:
  assumes "v_isISO8601 s"
  shows "\<exists>sgn y r. s = sgn @ y @ r \<and> (sgn = [] \<or> sgn = ''+'' \<or> sgn = ''-'')
           \<and> length y = 4 \<and> list_all is_digit y"
proof -
  let ?st0 = "\<lparr>caps = (\<lambda>_. None), seen = [], rest = s\<rparr>"
  let ?year = "seqs [opt (cls (one_of ''+-'')), rx_times 4 digit,
                    not_ahead (seqs [rx_times 2 digit, word_boundary])]"
  from assms have "grp 1 ?year ?st0 \<noteq> []"
    by (auto simp add: v_isISO8601_def rx_test_def iso8601_def seqs_def [of "bol # _"] seq_def
        bol_def)
  then have "?year ?st0 \<noteq> []"
    by (rule grp_nonempty)
  then have "seq (opt (cls (one_of ''+-'')))
               (seq (rx_times 4 digit)
                 (seq (not_ahead (seqs [rx_times 2 digit, word_boundary])) eps)) ?st0 \<noteq> []"
    by (simp add: seqs_def)
  from seq_nonempty [OF this]
  obtain st1 where 1: "st1 \<in> set (opt (cls (one_of ''+-'')) ?st0)"
    and r: "seq (rx_times 4 digit)
              (seq (not_ahead (seqs [rx_times 2 digit, word_boundary])) eps) st1 \<noteq> []"
    by blast
  from seq_nonempty [OF r]
  obtain st2 where 2: "st2 \<in> set (rx_times 4 (cls is_digit) st1)"
    by (auto simp add: digit_def)
  from opt_cls_result [OF 1]
  obtain sgn where sgn: "s = sgn @ rest st1" "sgn = [] \<or> sgn = ''+'' \<or> sgn = ''-''"
    by (auto simp add: one_of_def)
  from rx_times_cls_result [OF 2]
  obtain y where y: "rest st1 = y @ rest st2" "length y = 4" "list_all is_digit y"
    by blast
  from sgn y have "s = sgn @ y @ rest st2" by simp
  with sgn y show ?thesis by blast
qed

lemma iso_ordinal_days: "v_isISO8601 ''2025-366'' \<and> \<not> v_isISO8601 ''2025-367''"
  by code_simp

lemma iso_february_30: "v_isISO8601 ''2025-02-30''"
  by code_simp

lemma trim_str_half_past_ten: "trim_str ''10:30'' = ''10:30''"
  by code_simp

lemma not_iso_not_a_date: "\<not> v_isISO8601 ''not-a-date''"
  by code_simp

lemma iso_example: "v_isISO8601 ''2025-01-15''"
  by code_simp

lemma blank_is_space: "list_all is_space ''   ''"
  by code_simp

lemma password_abcdefgh: "\<not> rx_test password_pattern ''abcdefgh''"
  by code_simp

lemma password_example: "rx_test password_pattern ''Abcdef12''"
  by code_simp

lemma trim_str_A: "trim_str ''A'' = ''A''"
  by code_simp

lemma trim_str_email: "trim_str ''x@y.com'' = ''x@y.com''"
  by code_simp

lemma isEmail_example: "v_isEmail ''x@y.com''"
  by code_simp

lemma trim_str_ten: "trim_str ''0123456789'' = ''0123456789''"
  by code_simp

subsection \<open>What each chain reports\<close>

lemma run_doctor:
  "snd (run \<lparr>field = ''doctor'', is_optional = False,
            stack = [Validator True v_isEmpty ''Doctor is required'']\<rparr> b) = []
   \<longleftrightarrow> stringify (b ''doctor'') \<noteq> []"
  by (simp add: run_def Let_def v_isEmpty_def)

lemma run_date:
  "snd (run \<lparr>field = ''appointmentDate'', is_optional = False,
       stack = [Validator True v_isEmpty ''Appointment date is required'',
                Validator False v_isISO8601 ''Invalid date format'']\<rparr> b) = []
   \<longleftrightarrow> stringify (b ''appointmentDate'') \<noteq> [] \<and> v_isISO8601 (stringify (b ''appointmentDate''))"
  by (simp add: run_def Let_def v_isEmpty_def)

lemma run_time:
  "run \<lparr>field = ''appointmentTime'', is_optional = False,
       stack = [Validator True v_isEmpty ''Appointment time is required'',
                Sanitizer trim_str]\<rparr> b
   = (Some (trim_str (stringify (b ''appointmentTime''))),
      if stringify (b ''appointmentTime'') = [] then
        [\<lparr>param = ''appointmentTime'', msg = ''Appointment time is required'',
          val = b ''appointmentTime''\<rparr>]
      else [])"
  by (simp add: run_def Let_def v_isEmpty_def)

lemma run_reason:
  "snd (run \<lparr>field = ''reason'', is_optional = True,
       stack = [Sanitizer trim_str,
                Validator False (v_isLength None (Some 500))
                  ''Reason cannot exceed 500 characters'']\<rparr> b) = []
   \<longleftrightarrow> (case b ''reason'' of None \<Rightarrow> True | Some r \<Rightarrow> length (trim_str r) \<le> 500)"
  by (simp add: run_def Let_def v_isLength_def stringify_def split: option.splits)

lemma run_symptoms:
  "snd (run \<lparr>field = ''symptoms'', is_optional = False,
       stack = [Validator True v_isEmpty ''Symptoms are required'',
                Sanitizer trim_str,
                Validator False (v_isLength (Some 10) None)
                  ''Please provide at least 10 characters describing your symptoms'',
                Validator False (v_isLength None (Some 2000))
                  ''Symptoms description cannot exceed 2000 characters'']\<rparr> b) = []
   \<longleftrightarrow> stringify (b ''symptoms'') \<noteq> []
       \<and> 10 \<le> length (trim_str (stringify (b ''symptoms'')))
       \<and> length (trim_str (stringify (b ''symptoms''))) \<le> 2000"
  by (simp add: run_def Let_def v_isEmpty_def v_isLength_def stringify_def)

lemma run_password:
  "snd (run \<lparr>field = ''password'', is_optional = False,
       stack = [Validator False (v_isLength (Some 8) None) ''Password must be at least 8 characters'',
                Validator False (rx_test password_pattern)
                  ''Password must contain at least one uppercase letter, one lowercase letter, and one number'']\<rparr> b) = []
   \<longleftrightarrow> 8 \<le> length (stringify (b ''password'')) \<and> rx_test password_pattern (stringify (b ''password''))"
  by (simp add: run_def Let_def v_isLength_def)

lemma cites_time:
  "cites (validate appointmentValidation req) ''appointmentTime''
     \<longleftrightarrow> stringify (body req ''appointmentTime'') = []"
  by (simp add: cites_validate appointmentValidation_chains run_time)

lemma cites_date:
  "cites (validate appointmentValidation req) ''appointmentDate''
      \<longleftrightarrow> \<not> (stringify (body req ''appointmentDate'') \<noteq> []
             \<and> v_isISO8601 (stringify (body req ''appointmentDate'')))"
  by (simp add: cites_validate appointmentValidation_chains run_date)

lemma cites_doctor:
  "cites (validate appointmentValidation req) ''doctor''
      \<longleftrightarrow> stringify (body req ''doctor'') = []"
  by (simp add: cites_validate appointmentValidation_chains run_doctor)

lemma cites_reason:
  "cites (validate appointmentValidation req) ''reason''
      \<longleftrightarrow> \<not> (case body req ''reason'' of None \<Rightarrow> True | Some r \<Rightarrow> length (trim_str r) \<le> 500)"
  by (simp add: cites_validate appointmentValidation_chains run_reason)

lemma cites_password:
  "cites (validate (registerValidation norm) req) ''password''
      \<longleftrightarrow> \<not> (8 \<le> length (stringify (body req ''password''))
             \<and> rx_test password_pattern (stringify (body req ''password'')))"
  by (simp add: cites_validate registerValidation_chains run_password)

lemma whitespace_time_not_cited:
  assumes "body req ''appointmentTime'' = Some s" and "s \<noteq> []"
  shows "\<not> cites (validate appointmentValidation req) ''appointmentTime''"
  using assms by (simp add: cites_time stringify_def)

subsection \<open>Appointment creation\<close>

text \<open>
  Claim C5. The claim asks that an \<open>appointmentTime\<close> made of white space only fails
  validation. The chain runs \<open>notEmpty\<close> on the value as sent and trims afterwards, so it does
  not: the request with doctor \<open>d1\<close>, date \<open>2025-01-15\<close> and a time of three spaces passes
  every rule, and the handler receives the empty string as its time.
\<close>

theorem blank_time_accepted:
  "validate appointmentValidation
     \<lparr>req_method = POST, path = [], user = None, query = Map.empty,
      body = [''doctor'' \<mapsto> ''d1'', ''appointmentDate'' \<mapsto> ''2025-01-15'',
              ''appointmentTime'' \<mapsto> ''   '']\<rparr>
   = Next \<lparr>req_method = POST, path = [], user = None, query = Map.empty,
      body = [''doctor'' \<mapsto> ''d1'', ''appointmentDate'' \<mapsto> ''2025-01-15'',
              ''appointmentTime'' \<mapsto> []]\<rparr>"
proof -
  let ?req = "\<lparr>req_method = POST, path = [], user = None, query = Map.empty,
      body = [''doctor'' \<mapsto> ''d1'', ''appointmentDate'' \<mapsto> ''2025-01-15'',
              ''appointmentTime'' \<mapsto> ''   '']\<rparr>"
  have ok: "\<forall>c\<in>set appointmentValidation. snd (run c (body ?req)) = []"
    by (simp add: appointmentValidation_chains run_def Let_def stringify_def v_isEmpty_def
        iso_example)
  have "sanitized appointmentValidation ?req
     = \<lparr>req_method = POST, path = [], user = None, query = Map.empty,
      body = [''doctor'' \<mapsto> ''d1'', ''appointmentDate'' \<mapsto> ''2025-01-15'',
              ''appointmentTime'' \<mapsto> []]\<rparr>"
    by (auto simp add: sanitized_def appointmentValidation_chains run_def Let_def stringify_def
        trim_str_spaces [OF blank_is_space] fun_eq_iff)
  with ok show ?thesis by (simp add: validate_unfold)
qed

text \<open>
  Claim C6, as the code has it. The date rule is a check of the format: an appointment
  request is not cited for \<open>appointmentDate\<close> exactly when the field is present, not empty,
  and matches the library's ISO 8601 pattern, which begins with a four-digit year with an
  optional sign. The pattern does not ask whether the day exists, so \<open>2025-02-30\<close> is not
  cited; the value \<open>not-a-date\<close> is cited. The \<open>doctor\<close> field is never cited when it is a
  non-empty string, whatever the string: its only rule is \<open>notEmpty\<close>.
\<close>

theorem appointment_date_format_and_doctor_rules:
  "(\<not> cites (validate appointmentValidation req) ''appointmentDate''
      \<longleftrightarrow> (\<exists>s. body req ''appointmentDate'' = Some s \<and> s \<noteq> [] \<and> v_isISO8601 s))
   \<and> (\<not> cites (validate appointmentValidation req) ''appointmentDate''
        \<longrightarrow> (\<exists>s sgn y r. body req ''appointmentDate'' = Some s \<and> s = sgn @ y @ r
               \<and> (sgn = [] \<or> sgn = ''+'' \<or> sgn = ''-'')
               \<and> length y = 4 \<and> list_all is_digit y))
   \<and> (body req ''appointmentDate'' = Some ''not-a-date''
        \<longrightarrow> cites (validate appointmentValidation req) ''appointmentDate'')
   \<and> (body req ''appointmentDate'' = Some ''2025-02-30''
        \<longrightarrow> \<not> cites (validate appointmentValidation req) ''appointmentDate'')
   \<and> (\<forall>d. body req ''doctor'' = Some d \<and> d \<noteq> []
        \<longrightarrow> \<not> cites (validate appointmentValidation req) ''doctor'')"
proof -
  have iff: "\<not> cites (validate appointmentValidation req) ''appointmentDate''
      \<longleftrightarrow> (\<exists>s. body req ''appointmentDate'' = Some s \<and> s \<noteq> [] \<and> v_isISO8601 s)"
    unfolding cites_date
    by (cases "body req ''appointmentDate''") (auto simp add: stringify_def)
  have year: "\<not> cites (validate appointmentValidation req) ''appointmentDate''
        \<longrightarrow> (\<exists>s sgn y r. body req ''appointmentDate'' = Some s \<and> s = sgn @ y @ r
               \<and> (sgn = [] \<or> sgn = ''+'' \<or> sgn = ''-'')
               \<and> length y = 4 \<and> list_all is_digit y)"
  proof
    assume "\<not> cites (validate appointmentValidation req) ''appointmentDate''"
    with iff obtain s where s: "body req ''appointmentDate'' = Some s" "v_isISO8601 s"
      by blast
    from iso_year_prefix [OF s(2)] s(1) show "\<exists>s sgn y r. body req ''appointmentDate'' = Some s
               \<and> s = sgn @ y @ r \<and> (sgn = [] \<or> sgn = ''+'' \<or> sgn = ''-'')
               \<and> length y = 4 \<and> list_all is_digit y"
      by blast
  qed
  have bad: "body req ''appointmentDate'' = Some ''not-a-date''
        \<longrightarrow> cites (validate appointmentValidation req) ''appointmentDate''"
    using not_iso_not_a_date by (simp add: cites_date stringify_def)
  have feb: "body req ''appointmentDate'' = Some ''2025-02-30''
        \<longrightarrow> \<not> cites (validate appointmentValidation req) ''appointmentDate''"
    using iso_february_30 by (simp add: cites_date stringify_def)
  have doc: "\<forall>d. body req ''doctor'' = Some d \<and> d \<noteq> []
        \<longrightarrow> \<not> cites (validate appointmentValidation req) ''doctor''"
    by (simp add: cites_doctor stringify_def)
  from iff year bad feb doc show ?thesis by (intro conjI)
qed

theorem appointment_date_format_and_doctor_rules_witness:
  "cites (validate appointmentValidation
       \<lparr>req_method = POST, path = [], user = None, query = Map.empty,
        body = [''doctor'' \<mapsto> ''Dr. Who?'', ''appointmentDate'' \<mapsto> ''not-a-date'',
                ''appointmentTime'' \<mapsto> ''10:30'']\<rparr>) ''appointmentDate''
   \<and> \<not> cites (validate appointmentValidation
       \<lparr>req_method = POST, path = [], user = None, query = Map.empty,
        body = [''doctor'' \<mapsto> ''Dr. Who?'', ''appointmentDate'' \<mapsto> ''not-a-date'',
                ''appointmentTime'' \<mapsto> ''10:30'']\<rparr>) ''doctor''
   \<and> \<not> cites (validate appointmentValidation
       \<lparr>req_method = POST, path = [], user = None, query = Map.empty,
        body = [''doctor'' \<mapsto> ''d1'', ''appointmentDate'' \<mapsto> ''2025-02-30'',
                ''appointmentTime'' \<mapsto> ''10:30'']\<rparr>) ''appointmentDate''"
proof -
  let ?req = "\<lparr>req_method = POST, path = [], user = None, query = Map.empty,
        body = [''doctor'' \<mapsto> ''Dr. Who?'', ''appointmentDate'' \<mapsto> ''not-a-date'',
                ''appointmentTime'' \<mapsto> ''10:30'']\<rparr>"
  let ?feb = "\<lparr>req_method = POST, path = [], user = None, query = Map.empty,
        body = [''doctor'' \<mapsto> ''d1'', ''appointmentDate'' \<mapsto> ''2025-02-30'',
                ''appointmentTime'' \<mapsto> ''10:30'']\<rparr>"
  note t = appointment_date_format_and_doctor_rules [of ?req]
  note u = appointment_date_format_and_doctor_rules [of ?feb]
  have d: "body ?req ''appointmentDate'' = Some ''not-a-date''"
    by simp
  have w: "body ?req ''doctor'' = Some ''Dr. Who?'' \<and> ''Dr. Who?'' \<noteq> []"
    by simp
  have f: "body ?feb ''appointmentDate'' = Some ''2025-02-30''"
    by simp
  from t [THEN conjunct2, THEN conjunct2, THEN conjunct1] d
  have 1: "cites (validate appointmentValidation ?req) ''appointmentDate''"
    by (rule mp)
  from t [THEN conjunct2, THEN conjunct2, THEN conjunct2, THEN conjunct2, THEN spec,
      of "''Dr. Who?''"] w
  have 2: "\<not> cites (validate appointmentValidation ?req) ''doctor''"
    by (rule mp)
  from u [THEN conjunct2, THEN conjunct2, THEN conjunct2, THEN conjunct1] f
  have 3: "\<not> cites (validate appointmentValidation ?feb) ''appointmentDate''"
    by (rule mp)
  from 1 2 3 show ?thesis by (intro conjI)
qed

text \<open>
  The claim as worded asks that an accepted \<open>appointmentDate\<close> parse as a calendar date.
  The request with doctor \<open>d1\<close>, date \<open>2025-02-30\<close> and time \<open>10:30\<close> passes every rule and
  reaches the handler unchanged, and February 2025 has no day 30.
\<close>

theorem february_30_accepted:
  "validate appointmentValidation
     \<lparr>req_method = POST, path = [], user = None, query = Map.empty,
      body = [''doctor'' \<mapsto> ''d1'', ''appointmentDate'' \<mapsto> ''2025-02-30'',
              ''appointmentTime'' \<mapsto> ''10:30'']\<rparr>
   = Next \<lparr>req_method = POST, path = [], user = None, query = Map.empty,
      body = [''doctor'' \<mapsto> ''d1'', ''appointmentDate'' \<mapsto> ''2025-02-30'',
              ''appointmentTime'' \<mapsto> ''10:30'']\<rparr>
   \<and> calendar_day_exists ''2025-02-30'' = Some False"
proof (rule conjI)
  let ?req = "\<lparr>req_method = POST, path = [], user = None, query = Map.empty,
      body = [''doctor'' \<mapsto> ''d1'', ''appointmentDate'' \<mapsto> ''2025-02-30'',
              ''appointmentTime'' \<mapsto> ''10:30'']\<rparr>"
  have ok: "\<forall>c\<in>set appointmentValidation. snd (run c (body ?req)) = []"
    by (simp add: appointmentValidation_chains run_def Let_def stringify_def v_isEmpty_def
        iso_february_30)
  have "sanitized appointmentValidation ?req = ?req"
    by (auto simp add: sanitized_def appointmentValidation_chains run_def Let_def stringify_def
        trim_str_half_past_ten fun_eq_iff)
  with ok show "validate appointmentValidation ?req = Next ?req"
    by (simp add: validate_unfold)
next
  show "calendar_day_exists ''2025-02-30'' = Some False"
    by code_simp
qed

subsection \<open>Registration\<close>

text \<open>
  Claim C7. A registration request whose response does not cite \<open>password\<close> has a password
  of at least 8 characters that contains a lower-case letter, an upper-case letter and a
  digit; the password \<open>abcdefgh\<close> is cited.
\<close>

theorem password_rule:
  "(\<not> cites (validate (registerValidation norm) req) ''password''
      \<longrightarrow> (\<exists>s. body req ''password'' = Some s \<and> 8 \<le> length s
             \<and> (\<exists>c\<in>set s. is_lower c) \<and> (\<exists>c\<in>set s. is_upper c) \<and> (\<exists>c\<in>set s. is_digit c)))
   \<and> (body req ''password'' = Some ''abcdefgh''
        \<longrightarrow> cites (validate (registerValidation norm) req) ''password'')"
proof (intro conjI impI)
  assume "\<not> cites (validate (registerValidation norm) req) ''password''"
  then have len: "8 \<le> length (stringify (body req ''password''))"
    and pat: "rx_test password_pattern (stringify (body req ''password''))"
    by (simp_all add: cites_password)
  from len obtain s where s: "body req ''password'' = Some s"
    by (cases "body req ''password''") (auto simp add: stringify_def)
  with len pat password_pattern_needs [of s]
  show "\<exists>s. body req ''password'' = Some s \<and> 8 \<le> length s
           \<and> (\<exists>c\<in>set s. is_lower c) \<and> (\<exists>c\<in>set s. is_upper c) \<and> (\<exists>c\<in>set s. is_digit c)"
    by (simp add: stringify_def)
next
  assume "body req ''password'' = Some ''abcdefgh''"
  with password_abcdefgh show "cites (validate (registerValidation norm) req) ''password''"
    by (simp add: cites_password stringify_def)
qed

theorem password_rule_witness:
  "cites (validate (registerValidation (map lower))
       \<lparr>req_method = POST, path = [], user = None, query = Map.empty,
        body = [''name'' \<mapsto> ''A'', ''email'' \<mapsto> ''x@y.com'', ''password'' \<mapsto> ''abcdefgh'']\<rparr>)
     ''password''
   \<and> \<not> cites (validate (registerValidation (map lower))
       \<lparr>req_method = POST, path = [], user = None, query = Map.empty,
        body = [''name'' \<mapsto> ''A'', ''email'' \<mapsto> ''x@y.com'', ''password'' \<mapsto> ''Abcdef12'']\<rparr>)
     ''password''
   \<and> (\<exists>s. [''name'' \<mapsto> ''A'', ''email'' \<mapsto> ''x@y.com'', ''password'' \<mapsto> ''Abcdef12'']
              ''password'' = Some s \<and> 8 \<le> length s
          \<and> (\<exists>c\<in>set s. is_lower c) \<and> (\<exists>c\<in>set s. is_upper c) \<and> (\<exists>c\<in>set s. is_digit c))"
proof -
  let ?bad = "\<lparr>req_method = POST, path = [], user = None, query = Map.empty,
        body = [''name'' \<mapsto> ''A'', ''email'' \<mapsto> ''x@y.com'', ''password'' \<mapsto> ''abcdefgh'']\<rparr>"
  let ?good = "\<lparr>req_method = POST, path = [], user = None, query = Map.empty,
        body = [''name'' \<mapsto> ''A'', ''email'' \<mapsto> ''x@y.com'', ''password'' \<mapsto> ''Abcdef12'']\<rparr>"
  have b: "body ?bad ''password'' = Some ''abcdefgh''"
    by simp
  from password_rule [of "map lower" ?bad, THEN conjunct2] b
  have 1: "cites (validate (registerValidation (map lower)) ?bad) ''password''"
    by (rule mp)
  have 2: "\<not> cites (validate (registerValidation (map lower)) ?good) ''password''"
    by (simp add: cites_password stringify_def password_example)
  from password_rule [of "map lower" ?good, THEN conjunct1] 2
  have "\<exists>s. body ?good ''password'' = Some s \<and> 8 \<le> length s
          \<and> (\<exists>c\<in>set s. is_lower c) \<and> (\<exists>c\<in>set s. is_upper c) \<and> (\<exists>c\<in>set s. is_digit c)"
    by (rule mp)
  then have 3: "\<exists>s. [''name'' \<mapsto> ''A'', ''email'' \<mapsto> ''x@y.com'', ''password'' \<mapsto> ''Abcdef12'']
              ''password'' = Some s \<and> 8 \<le> length s
          \<and> (\<exists>c\<in>set s. is_lower c) \<and> (\<exists>c\<in>set s. is_upper c) \<and> (\<exists>c\<in>set s. is_digit c)"
    by (simp only: request.simps)
  from 1 2 3 show ?thesis by (intro conjI)
qed

text \<open>
  Claim C9. A registration request with name \<open>A\<close>, email \<open>x@y.com\<close>, password \<open>Abcdef12\<close>
  and neither role nor phone satisfies every rule: the middleware calls \<open>next()\<close>, with the
  email replaced by its normalised form and nothing else changed.
\<close>

theorem registration_example_accepted:
  assumes "body req ''name'' = Some ''A''"
    and "body req ''email'' = Some ''x@y.com''"
    and "body req ''password'' = Some ''Abcdef12''"
    and "body req ''role'' = None"
    and "body req ''phone'' = None"
  shows "validate (registerValidation norm) req
           = Next (req\<lparr>body := (body req)(''email'' \<mapsto> norm ''x@y.com'')\<rparr>)"
proof -
  have ok: "\<forall>c\<in>set (registerValidation norm). snd (run c (body req)) = []"
    using assms
    by (simp add: registerValidation_chains run_def Let_def stringify_def v_isEmpty_def
        v_isLength_def trim_str_A trim_str_email isEmail_example password_example)
  have "body (sanitized (registerValidation norm) req) = (body req)(''email'' \<mapsto> norm ''x@y.com'')"
    using assms
    by (auto simp add: sanitized_def registerValidation_chains run_def Let_def stringify_def
        trim_str_A trim_str_email fun_eq_iff)
  then have "sanitized (registerValidation norm) req
               = req\<lparr>body := (body req)(''email'' \<mapsto> norm ''x@y.com'')\<rparr>"
    by (simp add: sanitized_def)
  with ok show ?thesis by (simp add: validate_unfold)
qed

theorem registration_example_accepted_witness:
  "\<exists>r. validate (registerValidation (map lower))
       \<lparr>req_method = POST, path = [], user = None, query = Map.empty,
        body = [''name'' \<mapsto> ''A'', ''email'' \<mapsto> ''x@y.com'', ''password'' \<mapsto> ''Abcdef12'']\<rparr>
     = Next r"
proof -
  let ?req = "\<lparr>req_method = POST, path = [], user = None, query = Map.empty,
        body = [''name'' \<mapsto> ''A'', ''email'' \<mapsto> ''x@y.com'', ''password'' \<mapsto> ''Abcdef12'']\<rparr>"
  have "validate (registerValidation (map lower)) ?req
          = Next (?req\<lparr>body := (body ?req)(''email'' \<mapsto> map lower ''x@y.com'')\<rparr>)"
    by (rule registration_example_accepted) simp_all
  then show ?thesis by (rule exI)
qed

subsection \<open>Symptom submission\<close>

text \<open>
  Claim C8. A symptom request is accepted (the response does not cite \<open>symptoms\<close>, and the
  middleware calls \<open>next()\<close>) exactly when the trimmed length of the field is between 10 and
  2000 inclusive, where an absent field counts as the empty string. A text of 9 characters
  is rejected; a text of 10 characters that trimming leaves unchanged, so that its trimmed
  length is 10, is accepted.
\<close>

theorem symptoms_length_rule:
  "(\<not> cites (validate symptomValidation req) ''symptoms''
      \<longleftrightarrow> 10 \<le> length (trim_str (stringify (body req ''symptoms'')))
          \<and> length (trim_str (stringify (body req ''symptoms''))) \<le> 2000)
   \<and> ((\<exists>r. validate symptomValidation req = Next r)
      \<longleftrightarrow> 10 \<le> length (trim_str (stringify (body req ''symptoms'')))
          \<and> length (trim_str (stringify (body req ''symptoms''))) \<le> 2000)
   \<and> (\<forall>s. body req ''symptoms'' = Some s \<and> length s = 9
        \<longrightarrow> cites (validate symptomValidation req) ''symptoms'')
   \<and> (\<forall>s. body req ''symptoms'' = Some s \<and> length s = 10 \<and> trim_str s = s
        \<longrightarrow> (\<exists>r. validate symptomValidation req = Next r))"
proof -
  let ?t = "trim_str (stringify (body req ''symptoms''))"
  have ne: "10 \<le> length ?t \<Longrightarrow> stringify (body req ''symptoms'') \<noteq> []"
    using length_trim_str [of "stringify (body req ''symptoms'')"] by auto
  have c: "cites (validate symptomValidation req) ''symptoms''
             \<longleftrightarrow> \<not> (10 \<le> length ?t \<and> length ?t \<le> 2000)"
    using ne by (auto simp add: cites_validate symptomValidation_chains run_symptoms)
  have n: "(\<exists>r. validate symptomValidation req = Next r)
             \<longleftrightarrow> 10 \<le> length ?t \<and> length ?t \<le> 2000"
    using ne by (auto simp add: next_validate symptomValidation_chains run_symptoms)
  have nine: "\<And>s. body req ''symptoms'' = Some s \<Longrightarrow> length s = 9 \<Longrightarrow> \<not> 10 \<le> length ?t"
    using length_trim_str [of "stringify (body req ''symptoms'')"] by (simp add: stringify_def)
  have ten: "\<And>s. body req ''symptoms'' = Some s \<Longrightarrow> length s = 10 \<Longrightarrow> trim_str s = s
                \<Longrightarrow> 10 \<le> length ?t \<and> length ?t \<le> 2000"
    by (simp add: stringify_def)
  show ?thesis
    unfolding c n using nine ten by blast
qed

theorem symptoms_length_rule_witness:
  "cites (validate symptomValidation
       \<lparr>req_method = POST, path = [], user = None, query = Map.empty,
        body = [''symptoms'' \<mapsto> ''012345678'']\<rparr>) ''symptoms''
   \<and> (\<exists>r. validate symptomValidation
       \<lparr>req_method = POST, path = [], user = None, query = Map.empty,
        body = [''symptoms'' \<mapsto> ''0123456789'']\<rparr> = Next r)"
proof -
  let ?nine = "\<lparr>req_method = POST, path = [], user = None, query = Map.empty,
        body = [''symptoms'' \<mapsto> ''012345678'']\<rparr>"
  let ?ten = "\<lparr>req_method = POST, path = [], user = None, query = Map.empty,
        body = [''symptoms'' \<mapsto> ''0123456789'']\<rparr>"
  have a: "body ?nine ''symptoms'' = Some ''012345678'' \<and> length ''012345678'' = 9"
    by simp
  have b: "body ?ten ''symptoms'' = Some ''0123456789'' \<and> length ''0123456789'' = 10
             \<and> trim_str ''0123456789'' = ''0123456789''"
    by (simp add: trim_str_ten)
  from symptoms_length_rule [of ?nine, THEN conjunct2, THEN conjunct2, THEN conjunct1,
      THEN spec, of "''012345678''"] a
  have 1: "cites (validate symptomValidation ?nine) ''symptoms''"
    by (rule mp)
  from symptoms_length_rule [of ?ten, THEN conjunct2, THEN conjunct2, THEN conjunct2,
      THEN spec, of "''0123456789''"] b
  have 2: "\<exists>r. validate symptomValidation ?ten = Next r"
    by (rule mp)
  from 1 2 show ?thesis by (rule conjI)
qed

section \<open>Properties of the appointment form\<close>

lemma validateReason_short:
  assumes "r = [] \<or> length (trim_str r) < 10"
  shows "validateReason r \<noteq> []"
  using assms by (auto simp add: validateReason_def)

lemma validateForm_reason:
  "fst (validateForm k st) \<Longrightarrow> validateReason (reason (form st)) = []"
  by (simp add: validateForm_def validateField_def Let_def split_def)

lemma handleSubmit_invalid:
  "\<not> fst (validateForm k st) \<Longrightarrow> snd (handleSubmit k answer st) = [PreventDefault]"
  by (simp add: handleSubmit_def split_def)

text \<open>
  Claim C10. In the booking form the reason is mandatory: when it is empty, or shorter than
  10 characters once trimmed, \<open>validateForm\<close> fails and \<open>handleSubmit\<close> returns right after
  \<open>preventDefault\<close>, so the creation request is not sent. The server is less strict: its rule set
  cites \<open>reason\<close> only when the field is present and longer than 500 characters after
  trimming, so an absent or empty reason passes there.
\<close>

theorem reason_required_by_form:
  "(reason (form st) = [] \<or> length (trim_str (reason (form st))) < 10 \<longrightarrow>
      \<not> fst (validateForm k st)
      \<and> snd (handleSubmit k answer st) = [PreventDefault]
      \<and> \<not> sends_request (snd (handleSubmit k answer st)))
   \<and> (\<not> cites (validate appointmentValidation req) ''reason''
        \<longleftrightarrow> (case body req ''reason'' of None \<Rightarrow> True | Some r \<Rightarrow> length (trim_str r) \<le> 500))"
proof (intro conjI impI)
  assume short: "reason (form st) = [] \<or> length (trim_str (reason (form st))) < 10"
  show invalid: "\<not> fst (validateForm k st)"
    using validateReason_short [OF short] validateForm_reason [of k st] by blast
  then show none: "snd (handleSubmit k answer st) = [PreventDefault]"
    by (rule handleSubmit_invalid)
  then show "\<not> sends_request (snd (handleSubmit k answer st))"
    by (simp add: sends_request_def)
next
  show "\<not> cites (validate appointmentValidation req) ''reason''
        \<longleftrightarrow> (case body req ''reason'' of None \<Rightarrow> True | Some r \<Rightarrow> length (trim_str r) \<le> 500)"
    by (simp add: cites_reason)
qed

lemma trim_str_flu: "trim_str ''flu'' = ''flu''"
  by code_simp

theorem reason_required_by_form_witness:
  "snd (handleSubmit \<lparr>not_future = (\<lambda>d. False), outside_hours = (\<lambda>t. False)\<rparr> Created
          \<lparr>form = \<lparr>doctor = ''d1'', appointmentDate = ''2030-01-15'', appointmentTime = ''10:30'',
                    reason = ''flu'', symptoms = []\<rparr>,
           field_errors = Map.empty, showForm = True, showSuccess = False\<rparr>) = [PreventDefault]"
proof -
  let ?st = "\<lparr>form = \<lparr>doctor = ''d1'', appointmentDate = ''2030-01-15'', appointmentTime = ''10:30'',
                    reason = ''flu'', symptoms = []\<rparr>,
           field_errors = Map.empty, showForm = True, showSuccess = False\<rparr>"
  have "reason (form ?st) = [] \<or> length (trim_str (reason (form ?st))) < 10"
    by (simp add: trim_str_flu)
  with reason_required_by_form
         [of ?st "\<lparr>not_future = (\<lambda>d. False), outside_hours = (\<lambda>t. False)\<rparr>" Created,
          THEN conjunct1]
  have "\<not> fst (validateForm \<lparr>not_future = (\<lambda>d. False), outside_hours = (\<lambda>t. False)\<rparr> ?st)
      \<and> snd (handleSubmit \<lparr>not_future = (\<lambda>d. False), outside_hours = (\<lambda>t. False)\<rparr> Created ?st)
          = [PreventDefault]
      \<and> \<not> sends_request (snd (handleSubmit \<lparr>not_future = (\<lambda>d. False), outside_hours = (\<lambda>t. False)\<rparr> Created ?st))"
    by (rule mp)
  then show ?thesis by (elim conjE)
qed

lemma form_sends_when_valid:
  "snd (handleSubmit \<lparr>not_future = (\<lambda>d. False), outside_hours = (\<lambda>t. False)\<rparr> Created
          \<lparr>form = \<lparr>doctor = ''d1'', appointmentDate = ''2030-01-15'', appointmentTime = ''10:30'',
                    reason = ''seasonal flu'', symptoms = []\<rparr>,
           field_errors = Map.empty, showForm = True, showSuccess = False\<rparr>)
   = [PreventDefault,
      CreateAppointment \<lparr>doctor = ''d1'', appointmentDate = ''2030-01-15'', appointmentTime = ''10:30'',
                    reason = ''seasonal flu'', symptoms = []\<rparr>,
      HideSuccessAfter 5000, FetchAppointments]"
proof -
  have t: "trim_str ''seasonal flu'' = ''seasonal flu''"
    by code_simp
  show ?thesis
    by (simp add: handleSubmit_def validateForm_def validateField_def Let_def validateDoctor_def
        validateDate_def validateTime_def validateReason_def t)
qed

end
